theory Spec2Isabelle
  imports Complex_Main
begin

section \<open>JavaScript primitives used by the pitch pipeline\<close>

text \<open>
  JavaScript numbers are modelled as \<^typ>\<open>real\<close> where they hold measurements
  (frequencies, samples, percentages) and as \<^typ>\<open>int\<close> where the code only ever
  holds whole numbers (semitone counts, octaves, cents, millisecond timestamps, array
  indices). Arithmetic on them is exact: the rounding of doubles in their last bits is
  not modelled, and the theorems that evaluate the note mappers do so at inputs away
  from any rounding boundary. The values doubles have and reals lack are written out
  where a claim reaches them: \<open>NaN\<close> and \<open>undefined\<close> as \<open>None\<close>, and for \<open>frequencyToNote\<close>
  the double arithmetic with its zero, infinities and \<open>NaN\<close> in a section of its own.

  \<open>Math.round\<close> rounds halves towards plus infinity, which is \<^const>\<open>round\<close>;
  \<open>Math.floor\<close> is \<^const>\<open>floor\<close>.
\<close>

definition js_rem :: "int \<Rightarrow> int \<Rightarrow> int" where
  \<comment> \<open>The \<open>%\<close> operator on whole numbers: the result takes the sign of the dividend.\<close>
  "js_rem a b = sgn a * (\<bar>a\<bar> mod \<bar>b\<bar>)"

definition js_index :: "'a list \<Rightarrow> int \<Rightarrow> 'a option" where
  \<comment> \<open>\<open>xs[i]\<close>: \<open>undefined\<close> (here \<open>None\<close>) outside \<open>0 .. length - 1\<close>.\<close>
  "js_index xs i = (if 0 \<le> i \<and> i < int (length xs) then Some (xs ! nat i) else None)"

fun indexOf_from :: "'a list \<Rightarrow> 'a \<Rightarrow> int \<Rightarrow> int" where
  "indexOf_from [] x k = -1"
| "indexOf_from (y # ys) x k = (if y = x then k else indexOf_from ys x (k + 1))"

definition indexOf :: "'a list \<Rightarrow> 'a \<Rightarrow> int" where
  \<comment> \<open>\<open>Array.prototype.indexOf\<close>: position of the first occurrence, \<open>-1\<close> if absent.\<close>
  "indexOf xs x = indexOf_from xs x 0"


datatype js_value =
    Str string
  | Num real
  | Inherited string  \<comment> \<open>the member of that name of \<open>Object.prototype\<close>: a function or an
      object, never a string, and truthy\<close>

definition Object_prototype_names :: "string list" where
  \<comment> \<open>The property names every object literal inherits.\<close>
  "Object_prototype_names =
     [''constructor'', ''__proto__'', ''hasOwnProperty'', ''isPrototypeOf'',
      ''propertyIsEnumerable'', ''toLocaleString'', ''toString'', ''valueOf'',
      ''__defineGetter__'', ''__defineSetter__'', ''__lookupGetter__'', ''__lookupSetter__'']"

definition js_get :: "(string \<times> string) list \<Rightarrow> string \<Rightarrow> js_value option" where
  \<comment> \<open>\<open>obj[key]\<close> on an object literal with string values: an own property, else an
      inherited one, else \<open>undefined\<close> (here \<open>None\<close>).\<close>
  "js_get obj key =
     (case map_of obj key of
        Some v \<Rightarrow> Some (Str v)
      | None \<Rightarrow> if key \<in> set Object_prototype_names then Some (Inherited key) else None)"

definition js_or :: "js_value option \<Rightarrow> string \<Rightarrow> js_value" where
  \<comment> \<open>\<open>v || note\<close>: \<open>undefined\<close> and the empty string are falsy.\<close>
  "js_or v note =
     (case v of None \<Rightarrow> Str note | Some (Str []) \<Rightarrow> Str note | Some x \<Rightarrow> x)"

section \<open>Note tables (types/index.ts)\<close>

definition NOTE_NAMES_ABC :: "string list" where
  "NOTE_NAMES_ABC =
     [''C'', ''C#'', ''D'', ''D#'', ''E'', ''F'', ''F#'', ''G'', ''G#'', ''A'', ''A#'', ''B'']"

definition NOTE_NAMES_DOREMI_MAP :: "(string \<times> string) list" where
  "NOTE_NAMES_DOREMI_MAP =
     [(''C'', ''Do''), (''C#'', ''Do#''), (''Db'', ''Reb''), (''D'', ''Re''),
      (''D#'', ''Re#''), (''Eb'', ''Mib''), (''E'', ''Mi''), (''F'', ''Fa''),
      (''F#'', ''Fa#''), (''Gb'', ''Solb''), (''G'', ''Sol''), (''G#'', ''Sol#''),
      (''Ab'', ''Lab''), (''A'', ''La''), (''A#'', ''La#''), (''Bb'', ''Tib''),
      (''B'', ''Ti'')]"

datatype NotationSystem = ABC | DoReMi

datatype AccidentalSystem = sharp | flat

section \<open>Note mapper (utils/musicUtils)\<close>

record note_info =
  noteName :: "string option"  \<comment> \<open>the field \<open>note\<close>; \<open>None\<close> is \<open>undefined\<close>\<close>
  octave :: int
  cents :: int

definition semitoneRatio :: real where
  "semitoneRatio = 2 powr (1 / 12)"

definition semitonesFromA4 :: "real \<Rightarrow> real \<Rightarrow> real" where
  \<comment> \<open>\<open>Math.log(frequency / A4) / Math.log(semitoneRatio)\<close> in exact arithmetic; the
      quotient's underflow and overflow are in the section on double arithmetic.\<close>
  "semitonesFromA4 frequency A4 = ln (frequency / A4) / ln semitoneRatio"

definition noteIndexOf :: "real \<Rightarrow> real \<Rightarrow> int" where
  \<comment> \<open>The pitch-class index computed by \<open>frequencyToNote\<close> (0 = C, 1 = C#, ...).\<close>
  "noteIndexOf frequency standardPitch =
     (let noteIndex = js_rem (round (semitonesFromA4 frequency standardPitch)) 12;
          noteIndex = (if noteIndex < 0 then noteIndex + 12 else noteIndex)
      in js_rem (noteIndex + 9) 12)"

definition centsOf :: "real \<Rightarrow> int" where
  "centsOf exactSemitones =
     (let roundedSemitones = round exactSemitones
      in round ((exactSemitones - of_int roundedSemitones) * 100))"

definition frequencyToNote :: "real \<Rightarrow> real \<Rightarrow> note_info" where
  "frequencyToNote frequency standardPitch =
     (let A4 = standardPitch;
          s = semitonesFromA4 frequency A4;
          oct = \<lfloor>s / 12\<rfloor> + 4;
          noteIndex = noteIndexOf frequency standardPitch
      in \<lparr>noteName = js_index NOTE_NAMES_ABC noteIndex, octave = oct, cents = centsOf s\<rparr>)"

definition noteToFrequency :: "string \<Rightarrow> int \<Rightarrow> real \<Rightarrow> real" where
  "noteToFrequency note oct standardPitch =
     (let noteIndex = indexOf NOTE_NAMES_ABC note
      in if noteIndex = -1 then 0
         else let A4 = standardPitch;
                  semitones = (oct - 4) * 12 + (noteIndex - 9)
              in A4 * semitoneRatio powr (of_int semitones))"

definition getNoteDisplayName :: "string \<Rightarrow> NotationSystem \<Rightarrow> js_value" where
  "getNoteDisplayName note notationSystem =
     (case notationSystem of
        ABC \<Rightarrow> Str note
      | DoReMi \<Rightarrow> js_or (js_get NOTE_NAMES_DOREMI_MAP note) note)"

definition flatToSharp :: "(string \<times> string) list" where
  "flatToSharp =
     [(''Db'', ''C#''), (''Eb'', ''D#''), (''Gb'', ''F#''), (''Ab'', ''G#''), (''Bb'', ''A#'')]"

definition sharpToFlat :: "(string \<times> string) list" where
  "sharpToFlat =
     [(''C#'', ''Db''), (''D#'', ''Eb''), (''F#'', ''Gb''), (''G#'', ''Ab''), (''A#'', ''Bb'')]"

definition convertAccidental :: "string \<Rightarrow> AccidentalSystem \<Rightarrow> js_value" where
  "convertAccidental note accidentalSystem =
     (case accidentalSystem of
        sharp \<Rightarrow> js_or (js_get flatToSharp note) note
      | flat \<Rightarrow> js_or (js_get sharpToFlat note) note)"

definition transposeNote :: "string \<Rightarrow> string \<Rightarrow> string \<Rightarrow> string option" where
  \<comment> \<open>The result is an array read in the last branch, hence the option.\<close>
  "transposeNote note fromKey toKey =
     (let fromIndex = indexOf NOTE_NAMES_ABC fromKey;
          toIndex = indexOf NOTE_NAMES_ABC toKey;
          noteIndex = indexOf NOTE_NAMES_ABC note
      in if fromIndex = -1 \<or> toIndex = -1 \<or> noteIndex = -1 then Some note
         else let transposition = toIndex - fromIndex;
                  newNoteIndex = js_rem (noteIndex + transposition) 12;
                  newNoteIndex = (if newNoteIndex < 0 then newNoteIndex + 12 else newNoteIndex)
              in js_index NOTE_NAMES_ABC newNoteIndex)"

section \<open>Note mapper of the detection hook (hooks/usePitchDetection)\<close>

definition sharp_sign :: string where
  \<comment> \<open>The suffix of the sharp notes, byte for byte as the source file has it: the
      UTF-8 bytes of the musical sharp sign U+266F (E2 99 AF), each read as a Windows-1252
      character and stored as UTF-8 again.\<close>
  "sharp_sign = [CHR 0xC3, CHR 0xA2, CHR 0xE2, CHR 0x84, CHR 0xA2, CHR 0xC2, CHR 0xAF]"

definition noteNames :: "string list" where
  "noteNames =
     [''C'', ''C'' @ sharp_sign, ''D'', ''D'' @ sharp_sign, ''E'', ''F'', ''F'' @ sharp_sign,
      ''G'', ''G'' @ sharp_sign, ''A'', ''A'' @ sharp_sign, ''B'']"

definition hook_semitonesFromA4 :: "real \<Rightarrow> real \<Rightarrow> real" where
  \<comment> \<open>\<open>12 * Math.log2(frequency / A4)\<close>. In exact arithmetic this is the number the
      utility function computes; in doubles the two may differ in the last bits.\<close>
  "hook_semitonesFromA4 frequency A4 = 12 * log 2 (frequency / A4)"

definition hook_adjustedNoteIndex :: "real \<Rightarrow> real \<Rightarrow> int" where
  "hook_adjustedNoteIndex standartPitch frequency =
     (let noteIndex = js_rem (round (hook_semitonesFromA4 frequency standartPitch)) 12
      in js_rem (noteIndex + 9) 12)"

definition hook_frequencyToNote :: "real \<Rightarrow> real \<Rightarrow> note_info" where
  \<comment> \<open>The callback \<open>frequencyToNote\<close> of \<open>usePitchDetection\<close>; \<open>standartPitch\<close> comes
      from the user preferences.\<close>
  "hook_frequencyToNote standartPitch frequency =
     (if frequency = 0 \<or> frequency < 20 then \<lparr>noteName = Some [], octave = 0, cents = 0\<rparr>
      else let A4 = standartPitch;
               s = hook_semitonesFromA4 frequency A4;
               oct = \<lfloor>(s + 9) / 12\<rfloor> + 4;
               adjustedNoteIndex = hook_adjustedNoteIndex standartPitch frequency
           in \<lparr>noteName = js_index noteNames adjustedNoteIndex, octave = oct,
               cents = centsOf s\<rparr>)"

section \<open>The utility note mapper in double arithmetic\<close>

text \<open>
  The utility \<open>frequencyToNote\<close> once more, now with the values of double arithmetic
  that the reals do not have. \<open>Finite r\<close> is a finite double of value \<open>r\<close>. The
  quotient \<open>frequency / A4\<close> of two positive doubles is rounded to 0 below half of
  \<open>Number.MIN_VALUE\<close> and to \<open>Infinity\<close> from \<open>Number.MAX_VALUE\<close> plus half a unit in
  its last place on; every operation then treats zero, the infinities and \<open>NaN\<close> as
  IEEE 754 prescribes. On finite values the arithmetic is exact, as in the sections
  above.
\<close>

datatype js_number = Finite real | PosInfinity | NegInfinity | NaN





definition double_scale :: "js_number \<Rightarrow> real \<Rightarrow> js_number" where
  \<comment> \<open>\<open>x * c\<close>, and \<open>x / d\<close> as \<open>x * (1 / d)\<close>, for a positive finite constant\<close>
  "double_scale x c = (case x of Finite r \<Rightarrow> Finite (r * c) | other \<Rightarrow> other)"



definition double_round :: "js_number \<Rightarrow> js_number" where
  \<comment> \<open>\<open>Math.round\<close>\<close>
  "double_round x = (case x of Finite r \<Rightarrow> Finite (of_int (round r)) | other \<Rightarrow> other)"

definition double_minus :: "js_number \<Rightarrow> js_number \<Rightarrow> js_number" where
  \<comment> \<open>\<open>x - y\<close>: the difference of two equal infinities is \<open>NaN\<close>\<close>
  "double_minus x y =
     (case (x, y) of
        (NaN, _) \<Rightarrow> NaN
      | (_, NaN) \<Rightarrow> NaN
      | (Finite a, Finite b) \<Rightarrow> Finite (a - b)
      | (Finite a, PosInfinity) \<Rightarrow> NegInfinity
      | (Finite a, NegInfinity) \<Rightarrow> PosInfinity
      | (PosInfinity, PosInfinity) \<Rightarrow> NaN
      | (PosInfinity, _) \<Rightarrow> PosInfinity
      | (NegInfinity, NegInfinity) \<Rightarrow> NaN
      | (NegInfinity, _) \<Rightarrow> NegInfinity)"






section \<open>Buffer eviction (StaffAnalyzerWidget, animation loop)\<close>

record NoteHistoryItem =
  item_note :: string  \<comment> \<open>the field \<open>note\<close>\<close>
  freq :: real
  item_clarity :: real  \<comment> \<open>the field \<open>clarity\<close>\<close>
  timestamp :: int
  isTick :: bool
  tickId :: "int option"
  isVisible :: bool

definition cleanup :: "real \<Rightarrow> int \<Rightarrow> NoteHistoryItem list \<Rightarrow> NoteHistoryItem list" where
  \<comment> \<open>The updater passed to \<open>setLatestNotes\<close> every 500 ms.\<close>
  "cleanup timeWindow now prev =
     (let maxAge = timeWindow * 1000;
          filtered = filter (\<lambda>n. of_int (now - timestamp n) < maxAge) prev
      in if length filtered \<noteq> length prev then filtered else prev)"

section \<open>Pitch estimator (PitchDetector.detectPitch)\<close>

primrec sum_squares :: "real list \<Rightarrow> real \<Rightarrow> real" where
  \<comment> \<open>The first loop: \<open>rms += val * val\<close> over the whole buffer.\<close>
  "sum_squares [] rms = rms"
| "sum_squares (val # rest) rms = sum_squares rest (rms + val * val)"

definition rms_of :: "real list \<Rightarrow> real option" where
  \<comment> \<open>\<open>Math.sqrt(rms / size)\<close>; on the empty buffer this is \<open>0 / 0\<close>, that is \<open>NaN\<close>,
      written \<open>None\<close>.\<close>
  "rms_of buffer =
     (let size = length buffer
      in if size = 0 then None else Some (sqrt (sum_squares buffer 0 / real size)))"

definition weak_signal :: "real list \<Rightarrow> bool" where
  \<comment> \<open>The gate \<open>rms < 0.01\<close>; a comparison with \<open>NaN\<close> is false.\<close>
  "weak_signal buffer = (case rms_of buffer of None \<Rightarrow> False | Some rms \<Rightarrow> rms < 0.01)"

definition lags :: "real list \<Rightarrow> nat list" where
  \<comment> \<open>The offsets the autocorrelation loop visits: \<open>1 .. maxSamples - 1\<close>.\<close>
  "lags buffer = (let maxSamples = length buffer div 2 in [1..<maxSamples])"

primrec difference_sum :: "real list \<Rightarrow> nat \<Rightarrow> nat list \<Rightarrow> real \<Rightarrow> real" where
  \<comment> \<open>The inner loop: \<open>correlation += Math.abs(buffer[i] - buffer[i + offset])\<close>.\<close>
  "difference_sum buffer offset [] correlation = correlation"
| "difference_sum buffer offset (i # rest) correlation =
     difference_sum buffer offset rest (correlation + \<bar>buffer ! i - buffer ! (i + offset)\<bar>)"

definition correlation_at :: "real list \<Rightarrow> nat \<Rightarrow> real" where
  "correlation_at buffer offset =
     (let maxSamples = length buffer div 2
      in 1 - difference_sum buffer offset [0..<maxSamples] 0 / real maxSamples)"

primrec autocorrelation :: "real list \<Rightarrow> nat list \<Rightarrow> int \<times> real \<Rightarrow> int \<times> real" where
  \<comment> \<open>The outer loop, carrying \<open>(bestOffset, bestCorrelation)\<close>.\<close>
  "autocorrelation buffer [] best = best"
| "autocorrelation buffer (offset # rest) best =
     (let correlation = correlation_at buffer offset
      in autocorrelation buffer rest
           (if correlation > snd best then (int offset, correlation) else best))"

definition detectPitch :: "real \<Rightarrow> real list \<Rightarrow> real" where
  "detectPitch sampleRate buffer =
     (if weak_signal buffer then 0
      else let (bestOffset, bestCorrelation) = autocorrelation buffer (lags buffer) (-1, 0)
           in if bestOffset = -1 \<or> bestCorrelation < 0.3 then 0
              else sampleRate / of_int bestOffset)"

section \<open>Display position (StaffAnalyzerWidget.getNoteLeft)\<close>

definition timeWindow_setting :: "real option \<Rightarrow> real" where
  \<comment> \<open>\<open>settings?.timeWindow || 10\<close>: a missing or zero setting gives 10 seconds.\<close>
  "timeWindow_setting v = (case v of None \<Rightarrow> 10 | Some w \<Rightarrow> if w = 0 then 10 else w)"

definition getNoteLeft :: "real \<Rightarrow> real \<Rightarrow> real \<Rightarrow> real" where
  \<comment> \<open>\<open>timeWindow\<close> is the variable the callback closes over.\<close>
  "getNoteLeft timeWindow noteTimestamp currentTime =
     (let age = currentTime - noteTimestamp;
          maxAge = timeWindow * 1000;
          progress = age / maxAge;
          rightEdge = 90;
          leftEdge = 10;
          position = rightEdge - progress * (rightEdge - leftEdge)
      in max leftEdge (min rightEdge position))"

section \<open>Note buffer of the staff widget (StaffAnalyzerWidget effects)\<close>


















section \<open>Detection session (hooks/usePitchDetection: start, update, stop)\<close>

text \<open>
  The hook holds its resources in refs. Browser objects are named by identifiers; the
  state of the audio context is kept beside its identifier, because \<open>stop\<close> reads it.
  \<open>released\<close> records the releasing calls made on the browser, in order.
\<close>

type_synonym object_id = nat

datatype AudioContextState = suspended | running | closed

record PitchDetectionResult = note_info +
  res_frequency :: "real option"  \<comment> \<open>the field \<open>frequency\<close>; \<open>None\<close> is \<open>null\<close>\<close>
  res_clarity :: real  \<comment> \<open>the field \<open>clarity\<close>\<close>

datatype browser_call =
    CancelAnimationFrame nat
  | StopTracks object_id
  | Disconnect object_id
  | CloseContext object_id

record hook_state =
  result :: PitchDetectionResult
  isActive :: bool
  isActiveRef :: bool
  audioContextRef :: "(object_id \<times> AudioContextState) option"
  analyserRef :: "object_id option"
  rafRef :: "nat option"
  streamRef :: "object_id option"
  sourceRef :: "object_id option"
  isMountedRef :: bool
  released :: "browser_call list"

definition empty_result :: PitchDetectionResult where
  "empty_result =
     \<lparr>noteName = Some [], octave = 0, cents = 0, res_frequency = None, res_clarity = 0\<rparr>"

definition initial_hook :: hook_state where
  "initial_hook =
     \<lparr>result = empty_result, isActive = False, isActiveRef = False, audioContextRef = None,
      analyserRef = None, rafRef = None, streamRef = None, sourceRef = None,
      isMountedRef = True, released = []\<rparr>"

definition cancel_frame :: "hook_state \<Rightarrow> hook_state" where
  \<comment> \<open>"Clean up RAF": a frame handle is a number and is tested for truthiness.\<close>
  "cancel_frame s =
     (case rafRef s of
        Some handle \<Rightarrow>
          if handle \<noteq> 0
          then s\<lparr>released := released s @ [CancelAnimationFrame handle], rafRef := None\<rparr>
          else s
      | None \<Rightarrow> s)"

definition stop_stream :: "hook_state \<Rightarrow> hook_state" where
  \<comment> \<open>"Clean up audio stream"\<close>
  "stop_stream s =
     (case streamRef s of
        Some stream \<Rightarrow> s\<lparr>released := released s @ [StopTracks stream], streamRef := None\<rparr>
      | None \<Rightarrow> s)"

definition disconnect_source :: "hook_state \<Rightarrow> hook_state" where
  \<comment> \<open>"Clean up audio source"\<close>
  "disconnect_source s =
     (case sourceRef s of
        Some source \<Rightarrow> s\<lparr>released := released s @ [Disconnect source], sourceRef := None\<rparr>
      | None \<Rightarrow> s)"

definition close_context :: "hook_state \<Rightarrow> hook_state" where
  \<comment> \<open>"Clean up audio context": an exception of \<open>close()\<close> is caught and the ref is
      cleared all the same; a context found closed keeps its ref.\<close>
  "close_context s =
     (case audioContextRef s of
        Some (context, state) \<Rightarrow>
          if state \<noteq> closed
          then s\<lparr>released := released s @ [CloseContext context], audioContextRef := None\<rparr>
          else s
      | None \<Rightarrow> s)"

definition stop :: "hook_state \<Rightarrow> hook_state" where
  \<comment> \<open>The blocks of \<open>stop\<close> in their order.\<close>
  "stop s =
     (let s0 = s\<lparr>isActive := False, isActiveRef := False\<rparr>;
          s1 = cancel_frame s0;
          s2 = stop_stream s1;
          s3 = disconnect_source s2;
          s4 = close_context s3
      in s4\<lparr>analyserRef := None, result := empty_result\<rparr>)"

definition update :: "real \<Rightarrow> (real \<times> real) option \<Rightarrow> nat \<Rightarrow> hook_state \<Rightarrow> hook_state" where
  \<comment> \<open>One run of the loop body. \<open>found\<close> is what \<open>detector.findPitch\<close> returns,
      \<open>None\<close> when the frame throws (the exception is caught); \<open>handle\<close> is the value
      of \<open>requestAnimationFrame\<close>.\<close>
  "update standartPitch found handle s =
     (if \<not> isMountedRef s \<or> \<not> isActiveRef s \<or> analyserRef s = None then s
      else let s1 =
                 (case found of
                    None \<Rightarrow> s
                  | Some (pitch, c) \<Rightarrow>
                      if isMountedRef s \<and> isActiveRef s then
                        if pitch > 50 \<and> pitch < 5000 \<and> c > 0.3 then
                          let noteInfo = hook_frequencyToNote standartPitch pitch
                          in s\<lparr>result :=
                                \<lparr>noteName = noteName noteInfo, octave = octave noteInfo,
                                 cents = cents noteInfo, res_frequency = Some pitch,
                                 res_clarity = c\<rparr>\<rparr>
                        else s\<lparr>result := (result s)\<lparr>res_frequency := None,
                                                     res_clarity := max 0 c\<rparr>\<rparr>
                      else s)
           in s1\<lparr>rafRef := Some handle\<rparr>)"

text \<open>
  \<open>start\<close> is asynchronous: it waits for \<open>getUserMedia\<close> and, when the new audio
  context is suspended, for \<open>resume\<close>, and other callbacks may run while it waits. Its
  body is therefore modelled in the pieces that run without interruption. The guard
  \<open>isActiveRef.current\<close> at its entry only decides whether these pieces are scheduled at
  all; here they may run from any state, which covers every schedule.
\<close>

definition start_failed :: "hook_state \<Rightarrow> hook_state" where
  \<comment> \<open>The \<open>catch\<close> block of \<open>start\<close>.\<close>
  "start_failed s = s\<lparr>isActive := False, isActiveRef := False\<rparr>"

definition start_got_stream :: "object_id \<Rightarrow> bool \<Rightarrow> hook_state \<Rightarrow> hook_state" where
  \<comment> \<open>From the arrival of the media stream to the construction of the audio context;
      \<open>context_throws\<close> says that the constructor threw.\<close>
  "start_got_stream stream context_throws s =
     (if \<not> isMountedRef s then s\<lparr>released := released s @ [StopTracks stream]\<rparr>
      else let s1 = s\<lparr>streamRef := Some stream\<rparr>
           in if context_throws then start_failed s1 else s1)"

datatype setup_failure =
  NoFailure | CreateAnalyser | CreateMediaStreamSource | Connect | ForFloat32Array

definition start_context_ready ::
  "object_id \<Rightarrow> object_id \<Rightarrow> object_id \<Rightarrow> setup_failure \<Rightarrow>
   real \<Rightarrow> (real \<times> real) option \<Rightarrow> nat \<Rightarrow> hook_state \<Rightarrow> hook_state" where
  \<comment> \<open>From the running audio context to the first call of \<open>update\<close>; \<open>failure\<close> names
      the call that throws, if one does.\<close>
  "start_context_ready context analyser source failure standartPitch found handle s =
     (let s1 = s\<lparr>audioContextRef := Some (context, running)\<rparr>
      in if failure = CreateAnalyser then start_failed s1
         else let s2 = s1\<lparr>analyserRef := Some analyser\<rparr>
              in if failure = CreateMediaStreamSource then start_failed s2
                 else let s3 = s2\<lparr>sourceRef := Some source\<rparr>
                      in if failure = Connect \<or> failure = ForFloat32Array then start_failed s3
                         else update standartPitch found handle
                                (s3\<lparr>isActive := True, isActiveRef := True\<rparr>))"

definition unmount :: "hook_state \<Rightarrow> hook_state" where
  \<comment> \<open>The cleanup of the mount effect.\<close>
  "unmount s = stop (s\<lparr>isMountedRef := False, isActiveRef := False\<rparr>)"

datatype hook_event =
    GotStream object_id bool
  | Rejected  \<comment> \<open>\<open>getUserMedia\<close> or \<open>resume\<close> rejects\<close>
  | ContextReady object_id object_id object_id setup_failure real "(real \<times> real) option" nat
  | Update real "(real \<times> real) option" nat  \<comment> \<open>the timer calls \<open>update\<close>\<close>
  | ContextStateChange AudioContextState  \<comment> \<open>the browser suspends or resumes the context\<close>
  | Stop
  | Unmount
  | Mount

primrec hook_step :: "hook_state \<Rightarrow> hook_event \<Rightarrow> hook_state" where
  "hook_step s (GotStream stream context_throws) = start_got_stream stream context_throws s"
| "hook_step s Rejected = start_failed s"
| "hook_step s (ContextReady context analyser source failure standartPitch found handle) =
     start_context_ready context analyser source failure standartPitch found handle s"
| "hook_step s (Update standartPitch found handle) = update standartPitch found handle s"
| "hook_step s (ContextStateChange state) =
     s\<lparr>audioContextRef := map_option (\<lambda>(context, _). (context, state)) (audioContextRef s)\<rparr>"
| "hook_step s Stop = stop s"
| "hook_step s Unmount = unmount s"
| "hook_step s Mount = s\<lparr>isMountedRef := True\<rparr>"

definition hook_run :: "hook_event list \<Rightarrow> hook_state" where
  "hook_run events = foldl hook_step initial_hook events"

primrec browser_ok :: "hook_event \<Rightarrow> bool" where
  \<comment> \<open>What the browser guarantees: frame handles are not zero, and an audio context
      becomes \<open>closed\<close> only through \<open>close()\<close>.\<close>
  "browser_ok (GotStream stream context_throws) = True"
| "browser_ok Rejected = True"
| "browser_ok (ContextReady context analyser source failure standartPitch found handle) =
     (handle \<noteq> 0)"
| "browser_ok (Update standartPitch found handle) = (handle \<noteq> 0)"
| "browser_ok (ContextStateChange state) = (state \<noteq> closed)"
| "browser_ok Stop = True"
| "browser_ok Unmount = True"
| "browser_ok Mount = True"

definition hook_inv :: "hook_state \<Rightarrow> bool" where
  \<comment> \<open>No handle that \<open>stop\<close> would skip: no closed context and no zero frame handle.\<close>
  "hook_inv s =
     ((case audioContextRef s of Some (context, state) \<Rightarrow> state \<noteq> closed | None \<Rightarrow> True) \<and>
      rafRef s \<noteq> Some 0)"

definition all_released :: "hook_state \<Rightarrow> bool" where
  "all_released s =
     (streamRef s = None \<and> sourceRef s = None \<and> analyserRef s = None \<and>
      audioContextRef s = None \<and> rafRef s = None \<and> \<not> isActiveRef s \<and> \<not> isActive s)"

text \<open>
  Two sessions: a setup that fails when the source is connected to the analyser, and a
  setup that succeeds and schedules its first frame.
\<close>

definition failed_setup :: "hook_event list" where
  "failed_setup = [GotStream 1 False, ContextReady 2 3 4 Connect 440 None 7]"

definition running_session :: "hook_event list" where
  "running_session = [GotStream 1 False, ContextReady 2 3 4 NoFailure 440 None 7]"

section \<open>Properties\<close>

subsection \<open>Note mapper\<close>

lemma ln_semitoneRatio: "ln semitoneRatio = ln 2 / 12"
  by (simp add: semitoneRatio_def ln_powr)

lemma semitoneRatio_pos: "0 < semitoneRatio"
  by (simp add: semitoneRatio_def)

lemma semitones_of_power:
  assumes "0 < A4"
  shows "semitonesFromA4 (A4 * semitoneRatio powr of_int k) A4 = of_int k"
proof -
  have "ln (semitoneRatio powr of_int k) = of_int k * ln semitoneRatio"
    by (simp add: ln_powr)
  moreover have "ln semitoneRatio \<noteq> 0"
    by (simp add: ln_semitoneRatio)
  ultimately show ?thesis
    using assms by (simp add: semitonesFromA4_def)
qed

lemma round_times_100_bounds:
  fixes d :: real
  assumes "- (1/2) \<le> d" and "d < 1/2"
  shows "-50 \<le> round (d * 100)" and "round (d * 100) \<le> 50"
proof -
  show "-50 \<le> round (d * 100)"
    unfolding round_def using assms(1) by (simp add: le_floor_iff)
  show "round (d * 100) \<le> 50"
    unfolding round_def using assms(2) by (simp add: floor_le_iff)
qed

lemma centsOf_bounds: "-50 \<le> centsOf s \<and> centsOf s \<le> 50"
proof -
  have lo: "- (1/2) \<le> s - of_int (round s)" using of_int_round_le [of s] by linarith
  have hi: "s - of_int (round s) < 1/2" using of_int_round_gt [of s] by linarith
  show ?thesis
    using round_times_100_bounds [OF lo hi] by (simp add: centsOf_def Let_def)
qed

lemma centsOf_int: "centsOf (of_int k) = 0"
  by (simp add: centsOf_def)


lemma js_rem_normalised:
  "(let r = js_rem k 12 in if r < 0 then r + 12 else r) = k mod 12"
proof (cases "0 \<le> k")
  case True
  then show ?thesis by (simp add: js_rem_def sgn_if Let_def linorder_not_less)
next
  case False
  then have neg: "k < 0" by simp
  have m: "k mod 12 = (if (- k) mod 12 = 0 then 0 else 12 - (- k) mod 12)"
    using zmod_zminus1_eq_if [of "- k" 12] by simp
  have nn: "0 \<le> (- k) mod 12" by simp
  show ?thesis
  proof (cases "(- k) mod 12 = 0")
    case True
    then show ?thesis using neg m by (simp add: js_rem_def sgn_if Let_def)
  next
    case False
    with nn have "0 < (- k) mod 12" by linarith
    then show ?thesis using neg m False by (simp add: js_rem_def sgn_if Let_def)
  qed
qed

lemma rebase_mod:
  fixes n :: int
  assumes "0 \<le> n" "n < 12"
  shows "((oct - 4) * 12 + (n - 9) + 9) mod 12 = n"
proof -
  have "(oct - 4) * 12 + (n - 9) + 9 = n + (oct - 4) * 12" by simp
  then have "((oct - 4) * 12 + (n - 9) + 9) mod 12 = (n + (oct - 4) * 12) mod 12"
    by (rule arg_cong)
  also have "\<dots> = n mod 12" by (rule mod_mult_self1)
  also have "\<dots> = n" using assms by simp
  finally show ?thesis .
qed

lemma rebase_div:
  fixes n :: int
  assumes "0 \<le> n" "n < 12"
  shows "((oct - 4) * 12 + (n - 9)) div 12 + 4 = (if n < 9 then oct - 1 else oct)"
proof -
  have e: "((oct - 4) * 12 + (n - 9)) div 12 = (oct - 4) + (n - 9) div 12"
    by (metis add.commute div_mult_self1 zero_neq_numeral)
  have "(n - 9) div 12 = (if n < 9 then -1 else 0)"
    using assms by (auto simp: div_eq_minus1 zdiv_eq_0_iff
        intro: int_div_neg_eq [where r = "n + 3"])
  then show ?thesis unfolding e by simp
qed

lemma js_rem_nonneg: "0 \<le> a \<Longrightarrow> js_rem a 12 = a mod 12"
  by (simp add: js_rem_def sgn_if)

lemma noteIndexOf_mod:
  "noteIndexOf frequency standardPitch = (round (semitonesFromA4 frequency standardPitch) + 9) mod 12"
proof -
  let ?k = "round (semitonesFromA4 frequency standardPitch)"
  have "noteIndexOf frequency standardPitch = js_rem (?k mod 12 + 9) 12"
    using js_rem_normalised [of ?k] by (simp add: noteIndexOf_def Let_def)
  also have "\<dots> = (?k mod 12 + 9) mod 12"
    by (rule js_rem_nonneg) simp
  also have "\<dots> = (?k + 9) mod 12"
    by (simp add: mod_add_left_eq)
  finally show ?thesis .
qed

lemma frequencyToNote_of_power:
  assumes "0 < A4"
  shows "frequencyToNote (A4 * semitoneRatio powr of_int k) A4 =
           \<lparr>noteName = js_index NOTE_NAMES_ABC ((k + 9) mod 12), octave = k div 12 + 4, cents = 0\<rparr>"
proof -
  have s: "semitonesFromA4 (A4 * semitoneRatio powr of_int k) A4 = of_int k"
    by (rule semitones_of_power [OF assms])
  have "\<lfloor>(of_int k :: real) / 12\<rfloor> = k div 12"
    using floor_divide_of_int_eq [of k 12, where ?'a = real] by simp
  then show ?thesis
    by (simp add: frequencyToNote_def Let_def noteIndexOf_mod s centsOf_int)
qed

lemma indexOf_NOTE_NAMES_ABC:
  assumes "note \<in> set NOTE_NAMES_ABC"
  shows "0 \<le> indexOf NOTE_NAMES_ABC note \<and> indexOf NOTE_NAMES_ABC note < 12 \<and>
         js_index NOTE_NAMES_ABC (indexOf NOTE_NAMES_ABC note) = Some note"
  using assms by (auto simp: NOTE_NAMES_ABC_def indexOf_def js_index_def)

lemma roundtrip_general:
  assumes ref: "0 < ref" and mem: "note \<in> set NOTE_NAMES_ABC"
  shows "frequencyToNote (noteToFrequency note oct ref) ref =
           \<lparr>noteName = Some note,
            octave = (if indexOf NOTE_NAMES_ABC note < 9 then oct - 1 else oct),
            cents = 0\<rparr>"
proof -
  define n where "n = indexOf NOTE_NAMES_ABC note"
  define k where "k = (oct - 4) * 12 + (n - 9)"
  have n: "0 \<le> n" "n < 12" "js_index NOTE_NAMES_ABC n = Some note"
    using indexOf_NOTE_NAMES_ABC [OF mem] by (simp_all add: n_def)
  have f: "noteToFrequency note oct ref = ref * semitoneRatio powr of_int k"
    using n(1) by (simp add: noteToFrequency_def Let_def n_def [symmetric] k_def)
  have m: "(k + 9) mod 12 = n"
    unfolding k_def by (rule rebase_mod [OF n(1,2)])
  have d: "k div 12 + 4 = (if n < 9 then oct - 1 else oct)"
    unfolding k_def by (rule rebase_div [OF n(1,2)])
  show ?thesis
    unfolding f frequencyToNote_of_power [OF ref] m d n(3) n_def [symmetric] ..
qed

text \<open>
  C1. Round trip through \<open>noteToFrequency\<close> and back through \<open>frequencyToNote\<close>.
  In exact arithmetic the note name and a deviation of 0 cents come back for every pitch
  class, octave and positive reference pitch (\<open>roundtrip_general\<close>), but the octave comes back one lower
  for the nine pitch classes C to G#: \<open>frequencyToNote\<close> takes the octave from
  \<open>floor (semitones / 12) + 4\<close>, counting octaves from A, while \<open>noteToFrequency\<close>
  counts them from C. At C4 with the reference pitch 440 the round trip returns C3.
\<close>

theorem roundtrip_C4_octave:
  "frequencyToNote (noteToFrequency ''C'' 4 440) 440 = \<lparr>noteName = Some ''C'', octave = 3, cents = 0\<rparr>"
proof -
  have "''C'' \<in> set NOTE_NAMES_ABC" by (simp add: NOTE_NAMES_ABC_def)
  from roundtrip_general [OF _ this, of 440 4] show ?thesis
    by (simp add: indexOf_def NOTE_NAMES_ABC_def)
qed





text \<open>
  The bound does not depend on how the semitone count was rounded: it holds for every
  finite count.
\<close>

lemma cents_of_any_finite_count:
  "\<exists>c. double_round (double_scale (double_minus (Finite s) (double_round (Finite s))) 100)
         = Finite (of_int c) \<and> -50 \<le> c \<and> c \<le> 50"
  using centsOf_bounds [of s]
  by (simp add: double_round_def double_scale_def double_minus_def centsOf_def Let_def)






lemma log2_bounds_by_power:
  fixes x :: real
  assumes x: "0 < x" and lo: "1 / 2 ^ a \<le> x ^ 24" and hi: "x ^ 24 < 1 / 2 ^ b"
  shows "- real a / 2 \<le> 12 * log 2 x" and "12 * log 2 x < - real b / 2"
proof -
  have e: "24 * log 2 x = log 2 (x ^ 24)"
    using x by (simp add: log_nat_power)
  have "log 2 (1 / 2 ^ a) \<le> log 2 (x ^ 24)"
    using lo x by (simp add: log_le_cancel_iff)
  moreover have "log 2 (1 / 2 ^ a) = - real a"
    by (simp add: log_divide log_nat_power)
  ultimately have "- real a \<le> 24 * log 2 x" using e by simp
  then show "- real a / 2 \<le> 12 * log 2 x" by simp
  have "log 2 (x ^ 24) < log 2 (1 / 2 ^ b)"
    using hi x by (simp add: log_less_cancel_iff)
  moreover have "log 2 (1 / 2 ^ b) = - real b"
    by (simp add: log_divide log_nat_power)
  ultimately have "24 * log 2 x < - real b" using e by simp
  then show "12 * log 2 x < - real b / 2" by simp
qed

lemma semitones_330: "-11/2 \<le> 12 * log 2 (3/4 :: real)" "12 * log 2 (3/4 :: real) < -9/2"
  using log2_bounds_by_power [of "3/4" 11 9] by (simp_all add: power_divide)

lemma semitones_250: "-21/2 \<le> 12 * log 2 (25/44 :: real)" "12 * log 2 (25/44 :: real) < -19/2"
  using log2_bounds_by_power [of "25/44" 21 19] by (simp_all add: power_divide)

lemma round_in_unit:
  fixes s :: real
  assumes "of_int k - 1/2 \<le> s" and "s < of_int k + 1/2"
  shows "round s = k"
  unfolding round_def using assms by (simp add: floor_eq_iff)

lemma utility_semitones: "semitonesFromA4 frequency A4 = 12 * log 2 (frequency / A4)"
  by (simp add: semitonesFromA4_def ln_semitoneRatio log_def)


lemma floor_in_unit:
  fixes x :: real
  assumes "of_int k \<le> x" and "x < of_int k + 1"
  shows "\<lfloor>x\<rfloor> = k"
  using assms by (simp add: floor_eq_iff)

lemma utility_at_330:
  "frequencyToNote 330 440 = \<lparr>noteName = Some ''E'', octave = 3, cents = cents (frequencyToNote 330 440)\<rparr>"
proof -
  define s where "s = 12 * log 2 (3/4 :: real)"
  have s: "semitonesFromA4 330 440 = s"
    by (simp add: utility_semitones s_def)
  have b: "-11/2 \<le> s" "s < -9/2"
    unfolding s_def by (rule semitones_330)+
  have r: "round s = -5"
    by (rule round_in_unit) (use b in simp_all)
  have f: "\<lfloor>s / 12\<rfloor> = -1"
    by (rule floor_in_unit) (use b in simp_all)
  have i: "noteIndexOf 330 440 = 4"
    by (simp add: noteIndexOf_def s r js_rem_def)
  show ?thesis
    by (simp add: frequencyToNote_def Let_def s f i js_index_def NOTE_NAMES_ABC_def)
qed

lemma hook_at_330:
  "hook_frequencyToNote 440 330 = \<lparr>noteName = Some ''E'', octave = 4, cents = cents (hook_frequencyToNote 440 330)\<rparr>"
proof -
  define s where "s = 12 * log 2 (3/4 :: real)"
  have s: "hook_semitonesFromA4 330 440 = s"
    by (simp add: hook_semitonesFromA4_def s_def)
  have b: "-11/2 \<le> s" "s < -9/2"
    unfolding s_def by (rule semitones_330)+
  have r: "round s = -5"
    by (rule round_in_unit) (use b in simp_all)
  have f: "\<lfloor>(s + 9) / 12\<rfloor> = 0"
    by (rule floor_in_unit) (use b in simp_all)
  have i: "hook_adjustedNoteIndex 440 330 = 4"
    by (simp add: hook_adjustedNoteIndex_def s r js_rem_def)
  show ?thesis
    by (simp add: hook_frequencyToNote_def Let_def s f i js_index_def noteNames_def)
qed

lemma utility_at_250: "noteName (frequencyToNote 250 440) = Some ''B''"
proof -
  define s where "s = 12 * log 2 (25/44 :: real)"
  have s: "semitonesFromA4 250 440 = s"
    by (simp add: utility_semitones s_def)
  have b: "-21/2 \<le> s" "s < -19/2"
    unfolding s_def by (rule semitones_250)+
  have r: "round s = -10"
    by (rule round_in_unit) (use b in simp_all)
  have i: "noteIndexOf 250 440 = 11"
    by (simp add: noteIndexOf_def s r js_rem_def)
  show ?thesis
    by (simp add: frequencyToNote_def Let_def i js_index_def NOTE_NAMES_ABC_def)
qed

lemma hook_at_250: "noteName (hook_frequencyToNote 440 250) = None"
proof -
  define s where "s = 12 * log 2 (25/44 :: real)"
  have s: "hook_semitonesFromA4 250 440 = s"
    by (simp add: hook_semitonesFromA4_def s_def)
  have b: "-21/2 \<le> s" "s < -19/2"
    unfolding s_def by (rule semitones_250)+
  have r: "round s = -10"
    by (rule round_in_unit) (use b in simp_all)
  have i: "hook_adjustedNoteIndex 440 250 = -1"
    by (simp add: hook_adjustedNoteIndex_def s r js_rem_def)
  show ?thesis
    by (simp add: hook_frequencyToNote_def Let_def i js_index_def)
qed

text \<open>
  C2. The two \<open>frequencyToNote\<close> implementations do not agree. At 330 Hz with the
  reference pitch 440 both name the note E, but the utility function returns octave 3
  and the hook octave 4; at 250 Hz the utility function names B, while the hook computes
  the table index -1 and returns no note. Both frequencies lie well inside a semitone,
  away from any rounding boundary.
\<close>

theorem implementations_disagree:
  "noteName (frequencyToNote 330 440) = Some ''E'' \<and>
   noteName (hook_frequencyToNote 440 330) = Some ''E'' \<and>
   octave (frequencyToNote 330 440) = 3 \<and> octave (hook_frequencyToNote 440 330) = 4 \<and>
   noteName (frequencyToNote 250 440) = Some ''B'' \<and>
   noteName (hook_frequencyToNote 440 250) = None"
proof -
  have "noteName (frequencyToNote 330 440) = Some ''E''" "octave (frequencyToNote 330 440) = 3"
    by (subst utility_at_330, simp)+
  moreover have "noteName (hook_frequencyToNote 440 330) = Some ''E''"
    "octave (hook_frequencyToNote 440 330) = 4"
    by (subst hook_at_330, simp)+
  ultimately show ?thesis
    using utility_at_250 hook_at_250 by simp
qed

lemma indexOf_from_absent: "x \<notin> set xs \<Longrightarrow> indexOf_from xs x k = -1"
  by (induction xs arbitrary: k) auto

lemma indexOf_absent: "x \<notin> set xs \<Longrightarrow> indexOf xs x = -1"
  by (simp add: indexOf_def indexOf_from_absent)

lemma js_get_absent:
  "key \<notin> set (map fst obj) \<Longrightarrow> key \<notin> set Object_prototype_names \<Longrightarrow> js_get obj key = None"
  by (simp add: js_get_def map_of_eq_None_iff [THEN iffD2])

text \<open>
  C4, as amended. For a note name that is none of the seventeen spellings of the note
  tables (and not the name of a member that object literals inherit),
  \<open>convertAccidental\<close>, \<open>transposeNote\<close> and \<open>getNoteDisplayName\<close> return the name
  unchanged and \<open>noteToFrequency\<close> returns 0. None of the four contains an operation
  that throws, so each has a result on every input.
\<close>

theorem unrecognized_note_amended:
  assumes "note \<notin> set (map fst NOTE_NAMES_DOREMI_MAP)"
    and "note \<notin> set Object_prototype_names"
  shows "noteToFrequency note oct standardPitch = 0 \<and>
         convertAccidental note accidentalSystem = Str note \<and>
         transposeNote note fromKey toKey = Some note \<and>
         getNoteDisplayName note notationSystem = Str note"
proof -
  have abc: "note \<notin> set NOTE_NAMES_ABC"
    using assms(1) by (auto simp: NOTE_NAMES_ABC_def NOTE_NAMES_DOREMI_MAP_def)
  have f2s: "note \<notin> set (map fst flatToSharp)"
    using assms(1) by (auto simp: flatToSharp_def NOTE_NAMES_DOREMI_MAP_def)
  have s2f: "note \<notin> set (map fst sharpToFlat)"
    using assms(1) by (auto simp: sharpToFlat_def NOTE_NAMES_DOREMI_MAP_def)
  have 1: "noteToFrequency note oct standardPitch = 0"
    by (simp add: noteToFrequency_def indexOf_absent [OF abc])
  have 2: "convertAccidental note accidentalSystem = Str note"
    by (cases accidentalSystem)
      (simp_all add: convertAccidental_def js_or_def js_get_absent [OF f2s assms(2)]
        js_get_absent [OF s2f assms(2)])
  have 3: "transposeNote note fromKey toKey = Some note"
    by (simp add: transposeNote_def indexOf_absent [OF abc])
  have 4: "getNoteDisplayName note notationSystem = Str note"
    by (cases notationSystem)
      (simp_all add: getNoteDisplayName_def js_or_def js_get_absent [OF assms])
  from 1 2 3 4 show ?thesis by simp
qed

theorem unrecognized_note_amended_witness:
  "''H'' \<notin> set (map fst NOTE_NAMES_DOREMI_MAP) \<and> ''H'' \<notin> set Object_prototype_names \<and>
   noteToFrequency ''H'' 4 440 = 0 \<and> convertAccidental ''H'' sharp = Str ''H'' \<and>
   transposeNote ''H'' ''C'' ''D'' = Some ''H'' \<and> getNoteDisplayName ''H'' DoReMi = Str ''H''"
proof -
  have a: "''H'' \<notin> set (map fst NOTE_NAMES_DOREMI_MAP)"
    by (simp add: NOTE_NAMES_DOREMI_MAP_def)
  have b: "''H'' \<notin> set Object_prototype_names"
    by (simp add: Object_prototype_names_def)
  from a b unrecognized_note_amended [OF a b, of 4 440 sharp "''C''" "''D''" DoReMi]
  show ?thesis by simp
qed

text \<open>
  C4. The claim that every note-mapping operation returns an unrecognized name unchanged
  fails for \<open>noteToFrequency\<close>: on the name H it returns the number 0, by its guard on
  \<open>indexOf\<close> returning -1.
\<close>

theorem noteToFrequency_unrecognized_returns_zero:
  "indexOf NOTE_NAMES_ABC ''H'' = -1 \<and> noteToFrequency ''H'' 4 440 = 0 \<and>
   Num (noteToFrequency ''H'' 4 440) \<noteq> Str ''H''"
  by (simp add: noteToFrequency_def indexOf_def NOTE_NAMES_ABC_def)

lemma convertAccidental_inherited_name:
  "convertAccidental ''toString'' sharp = Inherited ''toString''"
  by (simp add: convertAccidental_def js_or_def js_get_def flatToSharp_def Object_prototype_names_def)

subsection \<open>Pitch estimator\<close>

lemma sum_squares_zeros: "\<forall>x\<in>set buffer. x = 0 \<Longrightarrow> sum_squares buffer rms = rms"
  by (induction buffer arbitrary: rms) auto

lemma weak_signal_zeros:
  assumes "\<forall>x\<in>set buffer. x = 0" and "buffer \<noteq> []"
  shows "weak_signal buffer"
  using assms by (simp add: weak_signal_def rms_of_def sum_squares_zeros)

lemma lags_short: "length buffer < 4 \<Longrightarrow> lags buffer = []"
  by (simp add: lags_def Let_def)

lemma detectPitch_no_lags: "lags buffer = [] \<Longrightarrow> detectPitch sampleRate buffer = 0"
  by (simp add: detectPitch_def)

lemma reads_in_range:
  assumes "offset \<in> set (lags buffer)" and "i \<in> set [0..<length buffer div 2]"
  shows "i < length buffer \<and> i + offset < length buffer"
  using assms by (auto simp: lags_def Let_def)

text \<open>
  C5. For every all-zero sample buffer \<open>detectPitch\<close> returns 0, and for every such
  buffer that holds samples the result comes from the energy gate (root mean square
  below 0.01), which returns before the autocorrelation loop.
\<close>

theorem silence_gives_no_pitch:
  assumes "\<forall>x\<in>set buffer. x = 0"
  shows "detectPitch sampleRate buffer = 0 \<and> (buffer \<noteq> [] \<longrightarrow> weak_signal buffer)"
proof (cases "buffer = []")
  case True
  then show ?thesis by (simp add: detectPitch_no_lags lags_short)
next
  case False
  with assms have "weak_signal buffer" by (rule weak_signal_zeros)
  then show ?thesis by (simp add: detectPitch_def)
qed

theorem silence_gives_no_pitch_witness:
  "detectPitch 44100 [0, 0, 0, 0] = 0 \<and> [0, 0, 0, 0] \<noteq> ([] :: real list) \<and>
   weak_signal [0, 0, 0, 0]"
  using silence_gives_no_pitch [of "[0, 0, 0, 0]" 44100] by simp

text \<open>
  The analyser always hands over 4096 samples. A buffer without samples would pass the
  gate, its root mean square being \<open>0 / 0\<close>, and still give 0, because no lag is found.
\<close>

lemma empty_buffer_passes_the_gate:
  "\<not> weak_signal [] \<and> detectPitch 44100 [] = 0"
  by (simp add: weak_signal_def rms_of_def detectPitch_def lags_def)

text \<open>
  C10. For every sample buffer of length 0 or 1, \<open>detectPitch\<close> returns 0, and the
  autocorrelation loop visits no lag at all: nothing is divided by a lag and no sample is
  read by the loop. (In general every read of the loop stays inside the buffer:
  \<open>reads_in_range\<close>.)
\<close>

theorem short_buffer_gives_no_pitch:
  assumes "length buffer < 2"
  shows "detectPitch sampleRate buffer = 0 \<and> lags buffer = []"
  using assms by (simp add: detectPitch_no_lags lags_short)

theorem short_buffer_gives_no_pitch_witness:
  "length [1::real] < 2 \<and> \<not> weak_signal [1] \<and> detectPitch 44100 [1] = 0 \<and> lags [1] = []"
  using short_buffer_gives_no_pitch [of "[1]" 44100]
  by (simp add: weak_signal_def rms_of_def)

subsection \<open>Scrolling note buffer\<close>

lemma timeWindow_setting_nonzero: "timeWindow_setting v \<noteq> 0"
  by (simp add: timeWindow_setting_def split: option.splits)

lemma getNoteLeft_range:
  "10 \<le> getNoteLeft timeWindow noteTimestamp currentTime \<and>
   getNoteLeft timeWindow noteTimestamp currentTime \<le> 90"
  by (simp add: getNoteLeft_def Let_def)

lemma getNoteLeft_antimono:
  assumes "0 < timeWindow" and "t1 \<le> t2"
  shows "getNoteLeft timeWindow noteTimestamp t2 \<le> getNoteLeft timeWindow noteTimestamp t1"
proof -
  define p1 where "p1 = (t1 - noteTimestamp) / (timeWindow * 1000)"
  define p2 where "p2 = (t2 - noteTimestamp) / (timeWindow * 1000)"
  have "p1 \<le> p2"
    unfolding p1_def p2_def using assms by (simp add: divide_right_mono)
  then have "90 - p2 * (90 - 10) \<le> 90 - p1 * (90 - 10)"
    by simp
  then have "90 - (t2 - noteTimestamp) / (timeWindow * 1000) * (90 - 10)
             \<le> 90 - (t1 - noteTimestamp) / (timeWindow * 1000) * (90 - 10)"
    unfolding p1_def p2_def .
  then show ?thesis
    unfolding getNoteLeft_def Let_def by (intro max.mono min.mono order_refl)
qed

text \<open>
  C6. For a fixed event timestamp and a fixed positive time window, the display position
  \<open>getNoteLeft\<close> does not increase as the current time increases, and it always lies in
  the closed interval from 10 to 90.
\<close>

theorem position_monotone_and_bounded:
  assumes "0 < timeWindow" and "t1 \<le> t2"
  shows "getNoteLeft timeWindow noteTimestamp t2 \<le> getNoteLeft timeWindow noteTimestamp t1 \<and>
         10 \<le> getNoteLeft timeWindow noteTimestamp t1 \<and>
         getNoteLeft timeWindow noteTimestamp t1 \<le> 90"
  using getNoteLeft_antimono [OF assms] getNoteLeft_range by simp

lemma getNoteLeft_at_5000: "getNoteLeft 10 0 5000 = 50"
  by (simp add: getNoteLeft_def)

lemma getNoteLeft_at_20000: "getNoteLeft 10 0 20000 = 10"
  by (simp add: getNoteLeft_def)

theorem position_monotone_and_bounded_witness:
  "(0::real) < 10 \<and> (5000::real) \<le> 20000 \<and>
   getNoteLeft 10 0 20000 \<le> getNoteLeft 10 0 5000 \<and>
   10 \<le> getNoteLeft 10 0 5000 \<and> getNoteLeft 10 0 5000 \<le> 90"
  using position_monotone_and_bounded [of 10 5000 20000 0] by simp

lemma cleanup_is_filter:
  "cleanup timeWindow now prev =
     filter (\<lambda>n. of_int (now - timestamp n) < timeWindow * 1000) prev"
proof -
  let ?keep = "\<lambda>n. of_int (now - timestamp n) < timeWindow * 1000"
  have "filter ?keep prev = prev" if "length (filter ?keep prev) = length prev"
    using that by (simp add: filter_id_conv length_filter_conv_card [symmetric]
        sum_length_filter_compl [of ?keep prev, symmetric] filter_empty_conv)
  then show ?thesis
    by (auto simp: cleanup_def Let_def)
qed

text \<open>
  C7. Eviction is idempotent: running the age-based cleanup twice at the same instant
  \<open>now\<close> and with the same time window gives the buffer that one run gives, so the
  second run removes nothing.
\<close>

theorem cleanup_idempotent:
  "cleanup timeWindow now (cleanup timeWindow now prev) = cleanup timeWindow now prev"
proof -
  have "filter (\<lambda>n. of_int (now - timestamp n) < timeWindow * 1000)
          (cleanup timeWindow now prev) = cleanup timeWindow now prev"
    unfolding cleanup_is_filter by simp
  then show ?thesis
    by (simp add: cleanup_def [of timeWindow now "cleanup timeWindow now prev"] Let_def)
qed




















subsection \<open>Detection session\<close>

lemma cancel_frame_fields:
  "result (cancel_frame s) = result s" "isActive (cancel_frame s) = isActive s"
  "isActiveRef (cancel_frame s) = isActiveRef s"
  "audioContextRef (cancel_frame s) = audioContextRef s"
  "analyserRef (cancel_frame s) = analyserRef s"
  "streamRef (cancel_frame s) = streamRef s" "sourceRef (cancel_frame s) = sourceRef s"
  "isMountedRef (cancel_frame s) = isMountedRef s"
  "rafRef (cancel_frame s) = (if rafRef s = Some 0 then Some 0 else None)"
  by (simp_all add: cancel_frame_def split: option.splits)

lemma stop_stream_fields:
  "result (stop_stream s) = result s" "isActive (stop_stream s) = isActive s"
  "isActiveRef (stop_stream s) = isActiveRef s"
  "audioContextRef (stop_stream s) = audioContextRef s"
  "analyserRef (stop_stream s) = analyserRef s"
  "streamRef (stop_stream s) = None" "sourceRef (stop_stream s) = sourceRef s"
  "isMountedRef (stop_stream s) = isMountedRef s"
  "rafRef (stop_stream s) = rafRef s"
  by (simp_all add: stop_stream_def split: option.splits)

lemma disconnect_source_fields:
  "result (disconnect_source s) = result s" "isActive (disconnect_source s) = isActive s"
  "isActiveRef (disconnect_source s) = isActiveRef s"
  "audioContextRef (disconnect_source s) = audioContextRef s"
  "analyserRef (disconnect_source s) = analyserRef s"
  "streamRef (disconnect_source s) = streamRef s" "sourceRef (disconnect_source s) = None"
  "isMountedRef (disconnect_source s) = isMountedRef s"
  "rafRef (disconnect_source s) = rafRef s"
  by (simp_all add: disconnect_source_def split: option.splits)

lemma close_context_fields:
  "result (close_context s) = result s" "isActive (close_context s) = isActive s"
  "isActiveRef (close_context s) = isActiveRef s"
  "analyserRef (close_context s) = analyserRef s"
  "streamRef (close_context s) = streamRef s" "sourceRef (close_context s) = sourceRef s"
  "isMountedRef (close_context s) = isMountedRef s"
  "rafRef (close_context s) = rafRef s"
  "audioContextRef (close_context s) =
     (case audioContextRef s of
        Some (c, state) \<Rightarrow> if state \<noteq> closed then None else Some (c, state)
      | None \<Rightarrow> None)"
  by (simp_all add: close_context_def split: option.splits prod.splits)

lemmas stop_step_fields =
  cancel_frame_fields stop_stream_fields disconnect_source_fields close_context_fields

lemma stop_fields:
  "result (stop s) = empty_result" "isActive (stop s) = False" "isActiveRef (stop s) = False"
  "analyserRef (stop s) = None" "streamRef (stop s) = None" "sourceRef (stop s) = None"
  "isMountedRef (stop s) = isMountedRef s"
  "rafRef (stop s) = (if rafRef s = Some 0 then Some 0 else None)"
  "audioContextRef (stop s) =
     (case audioContextRef s of
        Some (c, state) \<Rightarrow> if state \<noteq> closed then None else Some (c, state)
      | None \<Rightarrow> None)"
  by (simp_all add: stop_def Let_def stop_step_fields)


lemma stop_fixpoint:
  assumes "\<not> isActive t" and "\<not> isActiveRef t"
    and "rafRef t = None \<or> rafRef t = Some 0"
    and "streamRef t = None" and "sourceRef t = None"
    and "case audioContextRef t of Some (c, state) \<Rightarrow> state = closed | None \<Rightarrow> True"
    and "analyserRef t = None" and "result t = empty_result"
  shows "stop t = t"
proof -
  have s0: "t\<lparr>isActive := False, isActiveRef := False\<rparr> = t"
    using assms(1,2) by (cases t) simp
  have s1: "cancel_frame t = t"
    using assms(3) by (auto simp: cancel_frame_def)
  have s2: "stop_stream t = t"
    using assms(4) by (simp add: stop_stream_def)
  have s3: "disconnect_source t = t"
    using assms(5) by (simp add: disconnect_source_def)
  have s4: "close_context t = t"
    using assms(6) by (auto simp: close_context_def split: option.splits)
  have s5: "t\<lparr>analyserRef := None, result := empty_result\<rparr> = t"
    using assms(7,8) by (cases t) simp
  show ?thesis
    by (simp only: stop_def Let_def s0 s1 s2 s3 s4 s5)
qed

lemma stop_idempotent: "stop (stop s) = stop s"
  by (rule stop_fixpoint) (auto simp: stop_fields split: option.splits)

lemma stop_releases: "hook_inv s \<Longrightarrow> all_released (stop s)"
  by (auto simp: hook_inv_def all_released_def stop_fields split: option.splits)

lemma update_after_stop: "update standartPitch found handle (stop s) = stop s"
  by (simp add: update_def stop_fields)

lemma hook_inv_stop: "hook_inv s \<Longrightarrow> hook_inv (stop s)"
  by (auto simp: hook_inv_def stop_fields split: option.splits)


lemma update_refs:
  "audioContextRef (update standartPitch found handle s) = audioContextRef s"
  "rafRef (update standartPitch found handle s) = rafRef s \<or>
   rafRef (update standartPitch found handle s) = Some handle"
  by (simp_all add: update_def Let_def split: option.splits prod.splits)

lemma hook_inv_update:
  assumes "hook_inv s" and "handle \<noteq> 0"
  shows "hook_inv (update standartPitch found handle s)"
  using assms update_refs(2) [of standartPitch found handle s]
  by (auto simp: hook_inv_def update_refs(1))

lemma hook_inv_start_failed: "hook_inv s \<Longrightarrow> hook_inv (start_failed s)"
  by (simp add: hook_inv_def start_failed_def)

lemma hook_inv_start_got_stream:
  "hook_inv s \<Longrightarrow> hook_inv (start_got_stream stream context_throws s)"
  by (simp add: hook_inv_def start_got_stream_def start_failed_def Let_def)

lemma hook_inv_start_context_ready:
  assumes "hook_inv s" and "handle \<noteq> 0"
  shows "hook_inv (start_context_ready c analyser source failure standartPitch found handle s)"
proof -
  let ?s3 = "s\<lparr>audioContextRef := Some (c, running), analyserRef := Some analyser,
               sourceRef := Some source, isActive := True, isActiveRef := True\<rparr>"
  have "hook_inv ?s3" using assms(1) by (simp add: hook_inv_def)
  then have "hook_inv (update standartPitch found handle ?s3)"
    using assms(2) by (rule hook_inv_update)
  moreover have "hook_inv (start_failed (s\<lparr>audioContextRef := Some (c, running)\<rparr>))"
    "hook_inv (start_failed (s\<lparr>audioContextRef := Some (c, running),
        analyserRef := Some analyser\<rparr>))"
    "hook_inv (start_failed (s\<lparr>audioContextRef := Some (c, running),
        analyserRef := Some analyser, sourceRef := Some source\<rparr>))"
    using assms(1) by (simp_all add: hook_inv_def start_failed_def)
  ultimately show ?thesis
    by (simp add: start_context_ready_def Let_def)
qed

lemma hook_inv_step:
  assumes "hook_inv s" and "browser_ok e"
  shows "hook_inv (hook_step s e)"
proof (cases e)
  case (GotStream stream context_throws)
  with assms show ?thesis by (simp add: hook_inv_start_got_stream)
next
  case Rejected
  with assms show ?thesis by (simp add: hook_inv_start_failed)
next
  case (ContextReady c analyser source failure standartPitch found handle)
  with assms show ?thesis by (simp add: hook_inv_start_context_ready)
next
  case (Update standartPitch found handle)
  with assms show ?thesis by (simp add: hook_inv_update)
next
  case (ContextStateChange state)
  with assms show ?thesis by (auto simp: hook_inv_def split: option.splits)
next
  case Stop
  with assms show ?thesis by (simp add: hook_inv_stop)
next
  case Unmount
  have "hook_inv (s\<lparr>isMountedRef := False, isActiveRef := False\<rparr>)"
    using assms(1) by (simp add: hook_inv_def)
  with Unmount show ?thesis by (simp add: unmount_def hook_inv_stop)
next
  case Mount
  with assms show ?thesis by (simp add: hook_inv_def)
qed

lemma hook_inv_foldl:
  "hook_inv s \<Longrightarrow> list_all browser_ok events \<Longrightarrow> hook_inv (foldl hook_step s events)"
  by (induction events arbitrary: s) (simp_all add: hook_inv_step)

lemma hook_inv_run: "list_all browser_ok events \<Longrightarrow> hook_inv (hook_run events)"
  unfolding hook_run_def
  by (rule hook_inv_foldl) (simp_all add: hook_inv_def initial_hook_def)

lemma released_steps:
  "released (cancel_frame s) =
     released s @ (case rafRef s of
                     Some handle \<Rightarrow> if handle \<noteq> 0 then [CancelAnimationFrame handle] else []
                   | None \<Rightarrow> [])"
  "released (stop_stream s) =
     released s @ (case streamRef s of Some stream \<Rightarrow> [StopTracks stream] | None \<Rightarrow> [])"
  "released (disconnect_source s) =
     released s @ (case sourceRef s of Some source \<Rightarrow> [Disconnect source] | None \<Rightarrow> [])"
  "released (close_context s) =
     released s @ (case audioContextRef s of
                     Some (c, state) \<Rightarrow> if state \<noteq> closed then [CloseContext c] else []
                   | None \<Rightarrow> [])"
  by (simp_all add: cancel_frame_def stop_stream_def disconnect_source_def close_context_def
      split: option.splits prod.splits)

lemma released_stop:
  "released (stop s) =
     released s
     @ (case rafRef s of
          Some handle \<Rightarrow> if handle \<noteq> 0 then [CancelAnimationFrame handle] else []
        | None \<Rightarrow> [])
     @ (case streamRef s of Some stream \<Rightarrow> [StopTracks stream] | None \<Rightarrow> [])
     @ (case sourceRef s of Some source \<Rightarrow> [Disconnect source] | None \<Rightarrow> [])
     @ (case audioContextRef s of
          Some (c, state) \<Rightarrow> if state \<noteq> closed then [CloseContext c] else []
        | None \<Rightarrow> [])"
  by (simp add: stop_def Let_def released_steps stop_step_fields)


lemma stop_records_calls:
  "(\<forall>stream. streamRef s = Some stream \<longrightarrow> StopTracks stream \<in> set (released (stop s))) \<and>
   (\<forall>source. sourceRef s = Some source \<longrightarrow> Disconnect source \<in> set (released (stop s))) \<and>
   (\<forall>c state. audioContextRef s = Some (c, state) \<and> state \<noteq> closed \<longrightarrow>
      CloseContext c \<in> set (released (stop s))) \<and>
   (\<forall>handle. rafRef s = Some handle \<and> handle \<noteq> 0 \<longrightarrow>
      CancelAnimationFrame handle \<in> set (released (stop s)))"
  by (simp add: released_stop)

text \<open>
  C9. Stopping is idempotent and releases the capture resources. From any state, a
  second \<open>stop\<close> changes nothing. In every state the hook reaches, whether setup
  succeeded, failed part of the way or never ran, \<open>stop\<close> leaves the stream, source,
  analyser and audio context refs empty, no frame handle, and both activity flags off; a
  later \<open>update\<close> does nothing, so the loop has ended; and every stream, source, context
  and frame handle that was held has received its releasing call.
\<close>

theorem stop_idempotent_and_releasing:
  "stop (stop s) = stop s \<and>
   (list_all browser_ok events \<longrightarrow>
      all_released (stop (hook_run events)) \<and>
      update standartPitch found handle (stop (hook_run events)) = stop (hook_run events) \<and>
      (\<forall>stream. streamRef (hook_run events) = Some stream \<longrightarrow>
         StopTracks stream \<in> set (released (stop (hook_run events)))) \<and>
      (\<forall>source. sourceRef (hook_run events) = Some source \<longrightarrow>
         Disconnect source \<in> set (released (stop (hook_run events)))) \<and>
      (\<forall>c state. audioContextRef (hook_run events) = Some (c, state) \<longrightarrow>
         CloseContext c \<in> set (released (stop (hook_run events)))) \<and>
      (\<forall>h. rafRef (hook_run events) = Some h \<longrightarrow>
         CancelAnimationFrame h \<in> set (released (stop (hook_run events)))))"
proof (intro conjI impI)
  show "stop (stop s) = stop s" by (rule stop_idempotent)
next
  assume ok: "list_all browser_ok events"
  then have inv: "hook_inv (hook_run events)" by (rule hook_inv_run)
  then show "all_released (stop (hook_run events))" by (rule stop_releases)
  show "update standartPitch found handle (stop (hook_run events)) = stop (hook_run events)"
    by (rule update_after_stop)
  show "\<forall>stream. streamRef (hook_run events) = Some stream \<longrightarrow>
         StopTracks stream \<in> set (released (stop (hook_run events)))"
    using stop_records_calls [of "hook_run events"] by blast
  show "\<forall>source. sourceRef (hook_run events) = Some source \<longrightarrow>
         Disconnect source \<in> set (released (stop (hook_run events)))"
    using stop_records_calls [of "hook_run events"] by blast
  show "\<forall>c state. audioContextRef (hook_run events) = Some (c, state) \<longrightarrow>
         CloseContext c \<in> set (released (stop (hook_run events)))"
    using inv stop_records_calls [of "hook_run events"]
    by (auto simp: hook_inv_def)
  show "\<forall>h. rafRef (hook_run events) = Some h \<longrightarrow>
         CancelAnimationFrame h \<in> set (released (stop (hook_run events)))"
    using inv stop_records_calls [of "hook_run events"]
    by (auto simp: hook_inv_def)
qed

lemma failed_setup_state:
  "hook_run failed_setup =
     initial_hook\<lparr>streamRef := Some 1, audioContextRef := Some (2, running),
                  analyserRef := Some 3, sourceRef := Some 4\<rparr>"
  by (simp add: hook_run_def failed_setup_def initial_hook_def start_got_stream_def
      start_context_ready_def start_failed_def Let_def)

lemma running_session_state:
  "hook_run running_session =
     initial_hook\<lparr>streamRef := Some 1, audioContextRef := Some (2, running),
                  analyserRef := Some 3, sourceRef := Some 4, isActive := True,
                  isActiveRef := True, rafRef := Some 7\<rparr>"
  by (simp add: hook_run_def running_session_def initial_hook_def start_got_stream_def
      start_context_ready_def start_failed_def update_def Let_def)

theorem stop_idempotent_and_releasing_witness:
  "list_all browser_ok failed_setup \<and> list_all browser_ok running_session \<and>
   streamRef (hook_run failed_setup) = Some 1 \<and> sourceRef (hook_run failed_setup) = Some 4 \<and>
   audioContextRef (hook_run failed_setup) = Some (2, running) \<and>
   rafRef (hook_run running_session) = Some 7 \<and>
   stop (stop (hook_run failed_setup)) = stop (hook_run failed_setup) \<and>
   all_released (stop (hook_run failed_setup)) \<and>
   all_released (stop (hook_run running_session)) \<and>
   StopTracks 1 \<in> set (released (stop (hook_run failed_setup))) \<and>
   Disconnect 4 \<in> set (released (stop (hook_run failed_setup))) \<and>
   CloseContext 2 \<in> set (released (stop (hook_run failed_setup))) \<and>
   CancelAnimationFrame 7 \<in> set (released (stop (hook_run running_session)))"
proof -
  have ok1: "list_all browser_ok failed_setup" by (simp add: failed_setup_def)
  have ok2: "list_all browser_ok running_session" by (simp add: running_session_def)
  have held:
    "streamRef (hook_run failed_setup) = Some 1" "sourceRef (hook_run failed_setup) = Some 4"
    "audioContextRef (hook_run failed_setup) = Some (2, running)"
    "rafRef (hook_run running_session) = Some 7"
    by (simp_all add: failed_setup_state running_session_state)
  show ?thesis
    using stop_idempotent_and_releasing [where s = "hook_run failed_setup"
        and events = failed_setup and standartPitch = 440 and found = None and handle = 9]
      stop_idempotent_and_releasing [where s = "hook_run running_session"
        and events = running_session and standartPitch = 440 and found = None and handle = 9]
      ok1 ok2 held
    by blast
qed

end
